theory Spec2Isabelle
  imports Complex_Main
begin

section \<open>Data model of the queue (gui/src/App.tsx)\<close>

text \<open>
  The front end keeps the download queue as a list of \<open>QueueItem\<close> values (React state
  \<open>queue\<close>). The status is the six-valued string union of the interface; an id is a
  string. The field \<open>id\<close> of the source is called \<open>item_id\<close> here, since \<open>id\<close> is the
  identity function of HOL. JavaScript numbers are modelled as reals.
\<close>

datatype QueueStatus = Pending | Downloading | Paused | Completed | Failed | Cancelled

record QueueItem =
  item_id :: string
  url :: string
  title :: string
  thumbnail :: string
  quality :: string
  output_dir :: string
  output_filename :: string
  status :: QueueStatus
  progress :: real
  speed :: string
  eta :: string
  error :: "string option"
  file_path :: "string option"
  added_at :: string

text \<open>The payload of a \<open>queue-progress\<close> event (interface \<open>QueueProgress\<close>).\<close>

record QueueProgress =
  ev_id :: string
  ev_status :: QueueStatus
  ev_progress :: real
  ev_speed :: string
  ev_eta :: string
  ev_message :: string
  ev_file_path :: "string option"

subsection \<open>The queue-progress listener\<close>

text \<open>
  \<open>data.file_path || item.file_path\<close>: JavaScript's \<open>||\<close> takes the right operand when
  the left one is falsy, which for \<open>string | null\<close> means \<open>null\<close> or the empty string.
\<close>

definition or_file_path :: "string option \<Rightarrow> string option \<Rightarrow> string option" where
  "or_file_path a b = (case a of None \<Rightarrow> b | Some s \<Rightarrow> (if s = [] then b else Some s))"

text \<open>The object spread of the listener: the five fields named are overwritten.\<close>

definition apply_progress :: "QueueProgress \<Rightarrow> QueueItem \<Rightarrow> QueueItem" where
  "apply_progress d item =
     item\<lparr>status := ev_status d,
          progress := ev_progress d,
          speed := ev_speed d,
          eta := ev_eta d,
          file_path := or_file_path (ev_file_path d) (file_path item)\<rparr>"

text \<open>
  \<open>setQueue(prev => prev.map(item => item.id === data.id ? {...} : item))\<close>: the state
  update of the listener, as a function of the previous queue.
\<close>

definition queue_progress_listener :: "QueueProgress \<Rightarrow> QueueItem list \<Rightarrow> QueueItem list" where
  "queue_progress_listener d prev =
     map (\<lambda>item. if item_id item = ev_id d then apply_progress d item else item) prev"

section \<open>URL checks\<close>

text \<open>
  \<open>new URL(s)\<close> is the platform's parser; it either returns a URL object or throws a
  \<open>TypeError\<close>. It is a parameter of the model: \<open>parse s = None\<close> stands for the throw.
  Only the two properties the checks read are kept.
\<close>

record URL =
  protocol :: string
  hostname :: string

type_synonym url_parser = "string \<Rightarrow> URL option"

text \<open>
  The four entries of \<open>SUPPORTED_SITES\<close> are regular expressions without any operator
  but the escaped dot, with the flag \<open>i\<close>: each one matches when its literal text occurs
  somewhere in the subject, letters compared without case. Strings are byte strings here,
  the Thai names in UTF-8; case folding touches the ASCII letters only (Thai script has
  no case).
\<close>

definition canonicalize :: "char \<Rightarrow> char" where
  "canonicalize c =
     (if (97::nat) \<le> of_char c \<and> of_char c \<le> (122::nat)
      then char_of (of_char c - (32::nat)) else c)"

fun matches_here :: "string \<Rightarrow> string \<Rightarrow> bool" where
  "matches_here [] s = True"
| "matches_here (p # ps) [] = False"
| "matches_here (p # ps) (c # cs) = (canonicalize p = canonicalize c \<and> matches_here ps cs)"

fun regex_test :: "string \<Rightarrow> string \<Rightarrow> bool" where
  "regex_test pat [] = matches_here pat []"
| "regex_test pat (c # cs) = (matches_here pat (c # cs) \<or> regex_test pat cs)"

definition baanjeen_com :: string where
  "baanjeen_com =
     [CHR 0xE0, CHR 0xB8, CHR 0x9A, CHR 0xE0, CHR 0xB9, CHR 0x89, CHR 0xE0, CHR 0xB8, CHR 0xB2,
      CHR 0xE0, CHR 0xB8, CHR 0x99, CHR 0xE0, CHR 0xB8, CHR 0x88, CHR 0xE0, CHR 0xB8, CHR 0xB5,
      CHR 0xE0, CHR 0xB8, CHR 0x99] @ ''.com''"

definition nangsanjeen_online :: string where
  "nangsanjeen_online =
     [CHR 0xE0, CHR 0xB8, CHR 0xAB, CHR 0xE0, CHR 0xB8, CHR 0x99, CHR 0xE0, CHR 0xB8, CHR 0xB1,
      CHR 0xE0, CHR 0xB8, CHR 0x87, CHR 0xE0, CHR 0xB8, CHR 0xAA, CHR 0xE0, CHR 0xB8, CHR 0xB1,
      CHR 0xE0, CHR 0xB9, CHR 0x89, CHR 0xE0, CHR 0xB8, CHR 0x99, CHR 0xE0, CHR 0xB8, CHR 0x88,
      CHR 0xE0, CHR 0xB8, CHR 0xB5, CHR 0xE0, CHR 0xB8, CHR 0x99] @ ''.online''"

definition SUPPORTED_SITES :: "string list" where
  "SUPPORTED_SITES =
     [''xn--12ca1ddhqak6ecxc9b.com'',
      baanjeen_com,
      ''xn--12cg1cxchd0a2a4c5c5b.online'',
      nangsanjeen_online]"

text \<open>\<open>try { ... } catch { return false; }\<close>: the throw of the parser is the branch \<open>None\<close>.\<close>

definition isSupportedUrl :: "url_parser \<Rightarrow> string \<Rightarrow> bool" where
  "isSupportedUrl parse u =
     (case parse u of
        None \<Rightarrow> False
      | Some urlObj \<Rightarrow> list_ex (\<lambda>pattern. regex_test pattern (hostname urlObj)) SUPPORTED_SITES)"

definition isValidUrl :: "url_parser \<Rightarrow> string \<Rightarrow> bool" where
  "isValidUrl parse str =
     (case parse str of
        None \<Rightarrow> False
      | Some u \<Rightarrow> protocol u = ''http:'' \<or> protocol u = ''https:'')"

text \<open>
  A small parser for the concrete checks below. It only splits \<open>scheme://host/rest\<close> and
  rejects everything else; the theorems hold for every parser.
\<close>

definition toy_parse :: url_parser where
  "toy_parse s =
     (let scheme = takeWhile (\<lambda>c. c \<noteq> CHR '':'') s;
          rest = drop (length scheme) s
      in if scheme = [] \<or> take 3 rest \<noteq> ''://'' then None
         else Some \<lparr>protocol = scheme @ '':'',
                    hostname = takeWhile (\<lambda>c. c \<noteq> CHR ''/'') (drop 3 rest)\<rparr>)"

section \<open>The download-progress listener\<close>

text \<open>
  The payload of a \<open>download-progress\<close> event (interface \<open>DownloadProgress\<close>); the three
  optional numbers are \<open>None\<close> when the property is absent.
\<close>

record DownloadProgress =
  dp_status :: string
  dp_progress :: real
  dp_message :: string
  dp_filename :: "string option"
  downloaded_bytes :: "real option"
  total_bytes :: "real option"
  speed_bps :: "real option"

datatype DownloadStatus = Idle | Busy | Done | Errored

datatype LogType = LInfo | LSuccess | LError | LProgress

datatype Effect = LoadHistory | ShowNotification string string

text \<open>
  The part of the component's state that the listener and \<open>handleDownload\<close> write: the
  \<open>useState\<close> cells \<open>progress\<close>, \<open>status\<close>, \<open>isDownloading\<close>, \<open>downloadSpeed\<close>,
  \<open>downloadedBytes\<close>, \<open>totalBytes\<close>, \<open>eta\<close>, \<open>logs\<close>, and the two refs. Log entries are
  kept without their timestamp. \<open>effects\<close> records the calls of \<open>loadHistory\<close> and
  \<open>showNotification\<close>, in order.
\<close>

record AppState =
  dl_progress :: real
  dl_status :: DownloadStatus
  isDownloading :: bool
  downloadSpeed :: real
  downloadedBytes :: real
  totalBytes :: real
  dl_eta :: "real option"
  downloadStartTime :: "real option"
  lastProgressUpdate :: "(real \<times> real) option"
  logs :: "(LogType \<times> string) list"
  effects :: "Effect list"

text \<open>The initial values given to \<open>useState\<close> and \<open>useRef\<close>.\<close>

definition initial_state :: AppState where
  "initial_state =
     \<lparr>dl_progress = 0, dl_status = Idle, isDownloading = False, downloadSpeed = 0,
      downloadedBytes = 0, totalBytes = 0, dl_eta = None, downloadStartTime = None,
      lastProgressUpdate = None, logs = [], effects = []\<rparr>"

definition addLog :: "LogType \<Rightarrow> string \<Rightarrow> AppState \<Rightarrow> AppState" where
  "addLog ty msg s = s\<lparr>logs := logs s @ [(ty, msg)]\<rparr>"

text \<open>\<open>x || 0\<close> for an optional number.\<close>

definition or_zero :: "real option \<Rightarrow> real" where
  "or_zero x = (case x of None \<Rightarrow> 0 | Some v \<Rightarrow> v)"

text \<open>
  The updater passed to \<open>setDownloadSpeed\<close>:
  \<open>prev => prev === 0 ? instantSpeed : prev * 0.7 + instantSpeed * 0.3\<close>.
\<close>

definition smooth_speed :: "real \<Rightarrow> real \<Rightarrow> real" where
  "smooth_speed instantSpeed prev =
     (if prev = 0 then instantSpeed else prev * 0.7 + instantSpeed * 0.3)"

text \<open>The block under \<open>// Calculate speed using time difference\<close>.\<close>

definition track_speed :: "real \<Rightarrow> real \<Rightarrow> AppState \<Rightarrow> AppState" where
  "track_speed now currentBytes s =
     (case lastProgressUpdate s of
        Some (time, bytes) \<Rightarrow>
          (let timeDiff = (now - time) / 1000;
               bytesDiff = currentBytes - bytes
           in if timeDiff > 0.1
              then s\<lparr>downloadSpeed := smooth_speed (bytesDiff / timeDiff) (downloadSpeed s),
                     lastProgressUpdate := Some (now, currentBytes)\<rparr>
              else s)
      | None \<Rightarrow> s\<lparr>lastProgressUpdate := Some (now, currentBytes)\<rparr>)"

text \<open>
  The listener. Inside it the identifier \<open>downloadSpeed\<close> (in the block under
  \<open>// Calculate ETA\<close>) is not the current state but the constant of the render in which
  the listener was created; it is the first parameter here. The speed itself is written
  through the updater, which receives the current state.
\<close>

definition download_progress_listener ::
    "real \<Rightarrow> real \<Rightarrow> DownloadProgress \<Rightarrow> AppState \<Rightarrow> AppState" where
  "download_progress_listener downloadSpeed_seen now data s =
     (if dp_status data = ''downloading'' then
        (let s1 = s\<lparr>dl_progress := dp_progress data\<rparr>;
             currentBytes = or_zero (downloaded_bytes data);
             total = or_zero (total_bytes data);
             s2 = (if currentBytes > 0 then
                     (let s3 = track_speed now currentBytes
                                 (s1\<lparr>downloadedBytes := currentBytes, totalBytes := total\<rparr>)
                      in if downloadSpeed_seen > 0 \<and> total > 0
                         then s3\<lparr>dl_eta := Some ((total - currentBytes) / downloadSpeed_seen)\<rparr>
                         else s3)
                   else if or_zero (speed_bps data) \<noteq> 0
                        then s1\<lparr>downloadSpeed := or_zero (speed_bps data)\<rparr>
                        else s1)
         in if \<lfloor>dp_progress data\<rfloor> mod 10 = 0 then addLog LProgress (dp_message data) s2 else s2)
      else if dp_status data = ''completed'' then
        (let s1 = s\<lparr>dl_progress := 100, dl_status := Done, isDownloading := False,
                    downloadSpeed := 0, dl_eta := None, downloadedBytes := 0, totalBytes := 0,
                    downloadStartTime := None, lastProgressUpdate := None\<rparr>;
             s2 = addLog LSuccess (dp_message data) s1
         in s2\<lparr>effects := effects s2 @
              [LoadHistory,
               ShowNotification ''Download Complete''
                 (case dp_filename data of
                    None \<Rightarrow> ''Video downloaded successfully''
                  | Some f \<Rightarrow> if f = [] then ''Video downloaded successfully'' else f)]\<rparr>)
      else if dp_status data = ''info'' then addLog LInfo (dp_message data) s
      else if dp_status data = ''error'' then
        addLog LError (dp_message data)
          (s\<lparr>dl_status := Errored, isDownloading := False, downloadSpeed := 0, dl_eta := None\<rparr>)
      else s)"

text \<open>
  The listener is registered in an effect with the dependency list \<open>[]\<close>, so it is created
  once, in the first render, where \<open>downloadSpeed\<close> is the initial value of its state cell.
\<close>

definition mounted_listener :: "real \<Rightarrow> DownloadProgress \<Rightarrow> AppState \<Rightarrow> AppState" where
  "mounted_listener = download_progress_listener (downloadSpeed initial_state)"

text \<open>Events delivered one after the other, each with the clock reading of its delivery.\<close>

fun deliver :: "(real \<times> DownloadProgress) list \<Rightarrow> AppState \<Rightarrow> AppState" where
  "deliver [] s = s"
| "deliver ((now, data) # evs) s = deliver evs (mounted_listener now data s)"

definition progress_event :: "real \<Rightarrow> real \<Rightarrow> real \<Rightarrow> DownloadProgress" where
  "progress_event pct bytes size_known =
     \<lparr>dp_status = ''downloading'', dp_progress = pct, dp_message = ''Downloading'',
      dp_filename = None, downloaded_bytes = Some bytes, total_bytes = Some size_known,
      speed_bps = None\<rparr>"

section \<open>Settings and the scheduler pass\<close>

record AppSettings =
  default_download_dir :: string
  default_quality :: string
  max_concurrent_downloads :: int
  auto_start_queue :: bool
  show_notifications :: bool
  minimize_to_tray :: bool
  theme :: string

text \<open>The initial settings of the component.\<close>

definition default_settings :: AppSettings where
  "default_settings =
     \<lparr>default_download_dir = [], default_quality = ''auto'', max_concurrent_downloads = 2,
      auto_start_queue = True, show_notifications = True, minimize_to_tray = False,
      theme = ''dark''\<rparr>"

definition pendingItems_of :: "QueueItem list \<Rightarrow> QueueItem list" where
  "pendingItems_of queue = filter (\<lambda>item. status item = Pending) queue"

definition activeCount_of :: "QueueItem list \<Rightarrow> nat" where
  "activeCount_of queue = length (filter (\<lambda>item. status item = Downloading) queue)"

text \<open>
  \<open>invoke(command, { id })\<close> sends a command to the backend and is a parameter of the
  handlers: for a backend state of any type \<open>'b\<close> it gives \<open>Inr\<close> the state after the
  command, or \<open>Inl\<close> the error text when the promise is rejected (the state is then taken
  to be as before).
\<close>

type_synonym 'b invoker = "string \<Rightarrow> string \<Rightarrow> 'b \<Rightarrow> string + 'b"

text \<open>
  The loop of \<open>processQueue\<close>:
  \<open>for (let i = 0; i < Math.min(pendingItems.length, availableSlots); i++)
       await invoke("queue_start_download", { id: pendingItems[i].id })\<close>.
  A rejected command throws out of the loop: the result is the error and the state reached.
  The bound is at most the length of \<open>pendingItems\<close>, so the read \<open>pendingItems[i]\<close> is in
  range.
\<close>

function start_downloads ::
    "'b invoker \<Rightarrow> nat \<Rightarrow> int \<Rightarrow> QueueItem list \<Rightarrow> 'b \<Rightarrow> string option \<times> 'b" where
  "start_downloads invoke i bound pendingItems backend =
     (if int i < bound
      then (case invoke ''queue_start_download'' (item_id (pendingItems ! i)) backend of
              Inl err \<Rightarrow> (Some err, backend)
            | Inr backend' \<Rightarrow> start_downloads invoke (Suc i) bound pendingItems backend')
      else (None, backend))"
  by pat_completeness auto
termination
  by (relation "measure (\<lambda>(invoke, i, bound, pendingItems, backend). nat bound - i)") auto

declare start_downloads.simps [simp del]

text \<open>
  How a call of \<open>processQueue\<close> ends: it returned at once because a pass was in progress;
  the loop ran through and \<open>loadQueue\<close> was called; or a command was rejected, the error
  was logged and \<open>loadQueue\<close> was skipped.
\<close>

datatype Pass = Returned_at_once | Queue_reloaded | Logged_error string

text \<open>
  \<open>processQueue\<close>. \<open>queue\<close>, \<open>settings\<close> and \<open>isProcessingQueue\<close> are the values of the render
  that created the function: \<open>queue\<close> is the front end's copy of the backend's list, taken
  at the last \<open>loadQueue\<close> or progress event.
\<close>

definition processQueue ::
    "'b invoker \<Rightarrow> bool \<Rightarrow> AppSettings \<Rightarrow> QueueItem list \<Rightarrow> 'b \<Rightarrow> Pass \<times> 'b" where
  "processQueue invoke isProcessingQueue settings queue backend =
     (if isProcessingQueue then (Returned_at_once, backend)
      else
        (let pendingItems = pendingItems_of queue;
             activeCount = int (activeCount_of queue);
             availableSlots = max_concurrent_downloads settings - activeCount
         in case start_downloads invoke 0 (min (int (length pendingItems)) availableSlots)
                   pendingItems backend of
              (None, backend') \<Rightarrow> (Queue_reloaded, backend')
            | (Some err, backend') \<Rightarrow>
                (Logged_error (''Queue processing error: '' @ err), backend')))"

text \<open>
  The ids for which a pass sends the start command when none is rejected, in the order
  sent: the backend state is the list of ids received.
\<close>

definition started_ids :: "AppSettings \<Rightarrow> QueueItem list \<Rightarrow> string list" where
  "started_ids settings queue =
     snd (processQueue (\<lambda>command i sent. Inr (sent @ [i])) False settings queue [])"

text \<open>Sending the start command for a list of ids in order, up to the first rejection.\<close>

fun send_all :: "'b invoker \<Rightarrow> string list \<Rightarrow> 'b \<Rightarrow> string option \<times> 'b" where
  "send_all invoke [] backend = (None, backend)"
| "send_all invoke (i # ids) backend =
     (case invoke ''queue_start_download'' i backend of
        Inl err \<Rightarrow> (Some err, backend)
      | Inr backend' \<Rightarrow> send_all invoke ids backend')"

text \<open>
  The condition of the effect under \<open>// Auto-process queue when items are added or status
  changes\<close>, which runs after every render in which \<open>queue\<close> or one of the two settings
  changed and calls \<open>processQueue\<close> when the condition holds.
\<close>

definition auto_process :: "AppSettings \<Rightarrow> QueueItem list \<Rightarrow> bool" where
  "auto_process settings queue =
     (let pendingCount = length (pendingItems_of queue);
          activeCount = int (activeCount_of queue)
      in pendingCount > 0 \<and> activeCount < max_concurrent_downloads settings \<and>
         auto_start_queue settings)"




section \<open>The backend's queue commands\<close>

text \<open>
  The commands \<open>queue_add\<close>, \<open>queue_start_download\<close>, \<open>queue_pause\<close>, \<open>queue_resume\<close> and
  \<open>queue_cancel\<close> are implemented in the Rust backend, which holds the queue.
\<close>

record EnqueueRequest =
  rq_url :: string
  rq_title :: string
  rq_thumbnail :: string
  rq_quality :: string
  rq_outputDir :: string
  rq_outputFilename :: string

text \<open>
  Modelled from the spec: the id generator of \<open>queue_add\<close> is missing; the spec says the
  command returns a new id and that ids are unique. The model takes a string longer than
  every id in the queue.
\<close>

definition new_id :: "QueueItem list \<Rightarrow> string" where
  "new_id q = replicate (Suc (foldr (\<lambda>item n. max (length (item_id item)) n) q 0)) (CHR ''q'')"

text \<open>
  Modelled from the spec: \<open>queue_add\<close> is missing; the spec's enqueue request creates a
  queue item from the six fields, and the state machine starts in \<open>Pending\<close>.
\<close>

definition queue_add :: "string \<Rightarrow> EnqueueRequest \<Rightarrow> QueueItem list \<Rightarrow> string \<times> QueueItem list" where
  "queue_add now rq q =
     (new_id q,
      q @ [\<lparr>item_id = new_id q, url = rq_url rq, title = rq_title rq,
             thumbnail = rq_thumbnail rq, quality = rq_quality rq,
             output_dir = rq_outputDir rq, output_filename = rq_outputFilename rq,
             status = Pending, progress = 0, speed = [], eta = [], error = None,
             file_path = None, added_at = now\<rparr>])"

text \<open>
  Modelled from the spec: \<open>queue_start_download\<close> is missing; the scheduler tick of the
  spec admits a \<open>Pending\<close> item by starting its task and moving it to \<open>Downloading\<close>.
\<close>

definition queue_start_download :: "string \<Rightarrow> QueueItem list \<Rightarrow> QueueItem list" where
  "queue_start_download i q =
     map (\<lambda>item. if item_id item = i \<and> status item = Pending
                  then item\<lparr>status := Downloading\<rparr> else item) q"

text \<open>Modelled from the spec: \<open>queue_pause\<close> is missing; the state machine has \<open>Downloading \<rightarrow> Paused\<close>.\<close>

definition queue_pause :: "string \<Rightarrow> QueueItem list \<Rightarrow> QueueItem list" where
  "queue_pause i q =
     map (\<lambda>item. if item_id item = i \<and> status item = Downloading
                  then item\<lparr>status := Paused\<rparr> else item) q"

text \<open>
  Modelled from the spec: \<open>queue_resume\<close> is missing. The state machine has
  \<open>Paused \<rightarrow> Downloading\<close> for a resumed item and \<open>Failed \<rightarrow> Pending\<close> for the explicit
  retry; the front end sends this one command for both.
\<close>

definition queue_resume :: "string \<Rightarrow> QueueItem list \<Rightarrow> QueueItem list" where
  "queue_resume i q =
     map (\<lambda>item. if item_id item = i \<and> status item = Paused
                  then item\<lparr>status := Downloading\<rparr>
                  else if item_id item = i \<and> status item = Failed
                  then item\<lparr>status := Pending\<rparr> else item) q"

text \<open>
  Modelled from the spec: \<open>queue_cancel\<close> is missing. A \<open>Pending\<close> or \<open>Paused\<close> item becomes
  \<open>Cancelled\<close>; a \<open>Downloading\<close> one is only signalled and changes on acknowledgment.
\<close>

definition queue_cancel :: "string \<Rightarrow> QueueItem list \<Rightarrow> QueueItem list" where
  "queue_cancel i q =
     map (\<lambda>item. if item_id item = i \<and> (status item = Pending \<or> status item = Paused)
                  then item\<lparr>status := Cancelled\<rparr> else item) q"



text \<open>
  Modelled from the spec: the backend as the front end's \<open>invoke\<close> reaches it, which is
  missing. An accepted command does what the state machine says; which commands the
  backend rejects is not known, and \<open>rejects\<close> stands for any rule.
\<close>

type_synonym rejection = "string \<Rightarrow> string \<Rightarrow> QueueItem list \<Rightarrow> bool"

definition queue_backend :: "rejection \<Rightarrow> QueueItem list invoker" where
  "queue_backend rejects command i q =
     (if rejects command i q then Inl ''rejected''
      else if command = ''queue_start_download'' then Inr (queue_start_download i q)
      else if command = ''queue_pause'' then Inr (queue_pause i q)
      else if command = ''queue_resume'' then Inr (queue_resume i q)
      else if command = ''queue_cancel'' then Inr (queue_cancel i q)
      else Inl ''unknown command'')"

definition never :: rejection where
  "never command i q = False"






section \<open>The download form and its handlers\<close>

record VideoInfo =
  vi_url :: string
  vi_title :: string
  vi_thumbnail :: string
  vi_duration :: string
  vi_qualities :: "string list"
  vi_sources :: "(string \<times> string \<times> string) list"

text \<open>The state cells \<open>url\<close>, \<open>outputDir\<close>, \<open>filename\<close>, \<open>quality\<close> and \<open>videoInfo\<close>.\<close>

record Form =
  form_url :: string
  outputDir :: string
  filename :: string
  form_quality :: string
  videoInfo :: "VideoInfo option"

text \<open>
  \<open>String.prototype.trim\<close> is the platform's; the handlers take it as a parameter. For
  the concrete checks, \<open>ascii_trim\<close> strips the ASCII white space.
\<close>

type_synonym trimmer = "string \<Rightarrow> string"

definition is_space :: "char \<Rightarrow> bool" where
  "is_space c = (c \<in> set [CHR 0x09, CHR 0x0A, CHR 0x0B, CHR 0x0C, CHR 0x0D, CHR 0x20])"

definition ascii_trim :: trimmer where
  "ascii_trim s = rev (dropWhile is_space (rev (dropWhile is_space s)))"

text \<open>\<open>a || b\<close> on strings: the empty string is falsy.\<close>

definition or_str :: "string \<Rightarrow> string \<Rightarrow> string" where
  "or_str a b = (if a = [] then b else a)"

text \<open>\<open>.replace(/[<>:"/\\|?*]/g, "_")\<close>.\<close>

definition sanitize :: "string \<Rightarrow> string" where
  "sanitize t =
     map (\<lambda>c. if c \<in> set [CHR ''<'', CHR ''>'', CHR '':'', CHR 0x22, CHR ''/'', CHR 0x5C,
                             CHR ''|'', CHR ''?'', CHR ''*'']
              then CHR ''_'' else c) t"

text \<open>
  The argument object of \<open>invoke("queue_add", {...})\<close>. In the last field \<open>+\<close> binds
  tighter than \<open>||\<close>: \<open>filename || (title.replace(...) + ".mp4") || "video.mp4"\<close>.
\<close>

definition enqueue_args :: "trimmer \<Rightarrow> Form \<Rightarrow> VideoInfo \<Rightarrow> EnqueueRequest" where
  "enqueue_args trim form info =
     \<lparr>rq_url = trim (form_url form),
      rq_title = or_str (vi_title info) ''Unknown'',
      rq_thumbnail = or_str (vi_thumbnail info) [],
      rq_quality = form_quality form,
      rq_outputDir = outputDir form,
      rq_outputFilename =
        or_str (filename form) (or_str (sanitize (vi_title info) @ ''.mp4'') ''video.mp4'')\<rparr>"

record DownloadArgs =
  dv_url :: string
  dv_outputDir :: string
  dv_outputFilename :: "string option"
  dv_quality :: string

record HistoryItem =
  h_id :: string
  h_url :: string
  h_title :: string
  h_thumbnail :: string
  h_filename :: string
  h_quality :: string
  downloaded_at :: string
  h_file_path :: string
  file_size :: "real option"

text \<open>What a handler calls, in order: backend commands and the component's own functions.\<close>

datatype Call =
    Queue_add EnqueueRequest
  | Load_queue
  | Process_queue
  | Download_video DownloadArgs
  | Add_to_history HistoryItem

text \<open>
  \<open>addToQueue\<close>. \<open>reply\<close> is how the promise of \<open>queue_add\<close> settles: \<open>Inr\<close> the id
  returned, \<open>Inl\<close> the error of a rejection.
\<close>

definition addToQueue ::
    "trimmer \<Rightarrow> AppSettings \<Rightarrow> string + string \<Rightarrow> Form \<Rightarrow> AppState \<Rightarrow> Call list \<times> Form \<times> AppState" where
  "addToQueue trim settings reply form s =
     (case videoInfo form of
        None \<Rightarrow> ([], form, addLog LError ''Please fetch video info first'' s)
      | Some info \<Rightarrow>
          (case reply of
             Inr new \<Rightarrow>
               ([Queue_add (enqueue_args trim form info), Load_queue] @
                  (if auto_start_queue settings then [Process_queue] else []),
                form\<lparr>form_url := [], videoInfo := None, filename := []\<rparr>,
                addLog LSuccess (''Added to queue: '' @ vi_title info) s)
           | Inl err \<Rightarrow>
               ([Queue_add (enqueue_args trim form info)], form,
                addLog LError (''Failed to add to queue: '' @ err) s)))"

text \<open>The argument object of \<open>invoke("download_video", {...})\<close>.\<close>

definition download_args :: "trimmer \<Rightarrow> Form \<Rightarrow> DownloadArgs" where
  "download_args trim form =
     \<lparr>dv_url = trim (form_url form),
      dv_outputDir = outputDir form,
      dv_outputFilename = (if trim (filename form) = [] then None else Some (trim (filename form))),
      dv_quality = form_quality form\<rparr>"

text \<open>
  The object \<open>historyItem\<close>; \<open>id_text\<close> is \<open>Date.now().toString()\<close> and \<open>iso_text\<close> is
  \<open>new Date().toISOString()\<close> at that moment.
\<close>

definition historyItem_of :: "trimmer \<Rightarrow> string \<Rightarrow> string \<Rightarrow> Form \<Rightarrow> HistoryItem" where
  "historyItem_of trim id_text iso_text form =
     \<lparr>h_id = id_text,
      h_url = trim (form_url form),
      h_title = or_str (case videoInfo form of None \<Rightarrow> [] | Some info \<Rightarrow> vi_title info)
                  (or_str (filename form) ''Unknown''),
      h_thumbnail = (case videoInfo form of None \<Rightarrow> [] | Some info \<Rightarrow> vi_thumbnail info),
      h_filename = or_str (filename form) ''video.mp4'',
      h_quality = form_quality form,
      downloaded_at = iso_text,
      h_file_path = outputDir form @ ''/'' @ or_str (filename form) ''video.mp4'',
      file_size = None\<rparr>"

text \<open>
  \<open>handleDownload\<close>. \<open>started\<close> is the clock at the call; \<open>events\<close> are the progress events
  delivered while the download runs; \<open>reply\<close> is how the promise of \<open>download_video\<close>
  settles and \<open>stored\<close> how the one of \<open>add_to_history\<close> does.
\<close>

definition handleDownload ::
    "trimmer \<Rightarrow> real \<Rightarrow> (real \<times> DownloadProgress) list \<Rightarrow> string \<Rightarrow> string \<Rightarrow>
     string + string \<Rightarrow> string + unit \<Rightarrow> Form \<Rightarrow> AppState \<Rightarrow> Call list \<times> AppState" where
  "handleDownload trim started events id_text iso_text reply stored form s =
     (if trim (form_url form) = [] then ([], addLog LError ''Please enter a video URL'' s)
      else
        (let s1 = addLog LInfo (''Starting download: '' @ form_url form)
                    (s\<lparr>isDownloading := True, dl_status := Busy, dl_progress := 0,
                       downloadSpeed := 0, downloadedBytes := 0, totalBytes := 0, dl_eta := None,
                       downloadStartTime := Some started, lastProgressUpdate := None\<rparr>);
             s2 = deliver events s1;
             failed = (\<lambda>err. (addLog LError (''Error: '' @ err) (s2\<lparr>dl_status := Errored\<rparr>))
                               \<lparr>isDownloading := False\<rparr>)
         in case reply of
              Inl err \<Rightarrow> ([Download_video (download_args trim form)], failed err)
            | Inr result \<Rightarrow>
                ([Download_video (download_args trim form),
                  Add_to_history (historyItem_of trim id_text iso_text form)],
                 (case stored of
                    Inl err \<Rightarrow> failed err
                  | Inr u \<Rightarrow> (addLog LSuccess result s2)\<lparr>isDownloading := False\<rparr>))))"

text \<open>The history records and download requests among the calls of a handler.\<close>

fun history_records :: "Call list \<Rightarrow> HistoryItem list" where
  "history_records [] = []"
| "history_records (Add_to_history h # cs) = h # history_records cs"
| "history_records (c # cs) = history_records cs"

text \<open>The path \<open>outputDir/outputFilename\<close> of a download request, when it names a file.\<close>

definition requested_path :: "DownloadArgs \<Rightarrow> string option" where
  "requested_path a = map_option (\<lambda>f. dv_outputDir a @ ''/'' @ f) (dv_outputFilename a)"

section \<open>The action buttons of a queue item\<close>









section \<open>Reported failures\<close>



section \<open>Concrete queues and command sequences\<close>

definition item_a :: QueueItem where
  "item_a = \<lparr>item_id = ''a'', url = ''https://xn--12ca1ddhqak6ecxc9b.com/v/1'', title = ''A'',
     thumbnail = '''', quality = ''auto'', output_dir = ''/dl'', output_filename = ''a.mp4'',
     status = Downloading, progress = 40, speed = ''1.0 MB/s'', eta = ''0:30'',
     error = None, file_path = Some ''/dl/a.mp4'', added_at = ''t0''\<rparr>"

definition item_b :: QueueItem where
  "item_b = \<lparr>item_id = ''b'', url = ''https://xn--12ca1ddhqak6ecxc9b.com/v/2'', title = ''B'',
     thumbnail = '''', quality = ''720p'', output_dir = ''/dl'', output_filename = ''b.mp4'',
     status = Pending, progress = 0, speed = '''', eta = '''',
     error = None, file_path = None, added_at = ''t1''\<rparr>"

definition event_a :: QueueProgress where
  "event_a = \<lparr>ev_id = ''a'', ev_status = Completed, ev_progress = 100, ev_speed = '''',
     ev_eta = '''', ev_message = ''done'', ev_file_path = None\<rparr>"

definition state_100 :: AppState where
  "state_100 = initial_state\<lparr>downloadSpeed := 100, lastProgressUpdate := Some (1000, 100)\<rparr>"



definition info_1 :: VideoInfo where
  "info_1 = \<lparr>vi_url = ''https://xn--12ca1ddhqak6ecxc9b.com/v/1'', vi_title = ''Ep 1: A/B'',
     vi_thumbnail = [], vi_duration = ''10:00'', vi_qualities = [''720p''],
     vi_sources = [(''https://cdn.example/v.m3u8'', ''720p'', ''hls'')]\<rparr>"

definition form_1 :: Form where
  "form_1 = \<lparr>form_url = '' https://xn--12ca1ddhqak6ecxc9b.com/v/1 '', outputDir = ''/dl'',
     filename = [], form_quality = ''720p'', videoInfo = Some info_1\<rparr>"

definition form_padded :: Form where
  "form_padded = form_1\<lparr>filename := '' ep1.mp4''\<rparr>"

definition settings_manual :: AppSettings where
  "settings_manual = default_settings\<lparr>auto_start_queue := False\<rparr>"







section \<open>Properties of the queue-progress listener\<close>

lemma or_file_path_keeps: "b \<noteq> None \<Longrightarrow> or_file_path a b \<noteq> None"
  by (simp add: or_file_path_def split: option.splits)

lemma apply_progress_keeps_path:
  "file_path item \<noteq> None \<Longrightarrow> file_path (apply_progress d item) \<noteq> None"
  by (simp add: apply_progress_def or_file_path_keeps)

lemma apply_progress_frame:
  "item_id (apply_progress d item) = item_id item \<and>
   url (apply_progress d item) = url item \<and>
   title (apply_progress d item) = title item \<and>
   thumbnail (apply_progress d item) = thumbnail item \<and>
   quality (apply_progress d item) = quality item \<and>
   output_dir (apply_progress d item) = output_dir item \<and>
   output_filename (apply_progress d item) = output_filename item \<and>
   error (apply_progress d item) = error item \<and>
   added_at (apply_progress d item) = added_at item"
  by (simp add: apply_progress_def)

lemma listener_length: "length (queue_progress_listener d q) = length q"
  by (simp add: queue_progress_listener_def)


lemma listener_nth:
  "i < length q \<Longrightarrow>
   queue_progress_listener d q ! i =
     (if item_id (q ! i) = ev_id d then apply_progress d (q ! i) else q ! i)"
  by (simp add: queue_progress_listener_def)

text \<open>
  C9. A \<open>queue-progress\<close> event changes only the items whose id is the event's id: the
  list keeps its length, every item with another id is the same record at the same
  position (so its status, progress, speed, eta and file_path are unchanged), and no
  item that has a file path loses it, whatever the event carries.
\<close>

theorem queue_progress_frame:
  "length (queue_progress_listener d q) = length q \<and>
   (\<forall>i < length q.
      (item_id (q ! i) \<noteq> ev_id d \<longrightarrow> queue_progress_listener d q ! i = q ! i) \<and>
      (file_path (q ! i) \<noteq> None \<longrightarrow> file_path (queue_progress_listener d q ! i) \<noteq> None))"
proof (intro conjI allI impI)
  show "length (queue_progress_listener d q) = length q"
    by (rule listener_length)
next
  fix i assume "i < length q" and "item_id (q ! i) \<noteq> ev_id d"
  then show "queue_progress_listener d q ! i = q ! i"
    by (simp add: listener_nth)
next
  fix i assume i: "i < length q" and path: "file_path (q ! i) \<noteq> None"
  show "file_path (queue_progress_listener d q ! i) \<noteq> None"
  proof (cases "item_id (q ! i) = ev_id d")
    case True
    then show ?thesis
      using i apply_progress_keeps_path [OF path, of d] by (simp add: listener_nth)
  next
    case False
    then show ?thesis using i path by (simp add: listener_nth)
  qed
qed

theorem queue_progress_frame_witness:
  "queue_progress_listener event_a [item_a, item_b] ! 1 = item_b \<and>
   status (queue_progress_listener event_a [item_a, item_b] ! 0) = Completed \<and>
   file_path (queue_progress_listener event_a [item_a, item_b] ! 0) = Some ''/dl/a.mp4''"
proof -
  have other: "item_id ([item_a, item_b] ! 1) \<noteq> ev_id event_a"
    by (simp add: item_b_def event_a_def)
  have "queue_progress_listener event_a [item_a, item_b] ! 1 = [item_a, item_b] ! 1"
    using queue_progress_frame [of event_a "[item_a, item_b]"] other by simp
  then show ?thesis
    by (simp add: queue_progress_listener_def apply_progress_def or_file_path_def
        item_a_def item_b_def event_a_def)
qed

section \<open>Properties of the URL checks\<close>

text \<open>The matcher is a search for the pattern's text, letters compared without case.\<close>

lemma matches_here_iff:
  "matches_here pat s \<longleftrightarrow>
   length pat \<le> length s \<and> map canonicalize (take (length pat) s) = map canonicalize pat"
  by (induction pat s rule: matches_here.induct) auto

lemma regex_test_iff:
  "regex_test pat s \<longleftrightarrow>
   (\<exists>pre mid post. s = pre @ mid @ post \<and> map canonicalize mid = map canonicalize pat)"
proof (induction s)
  case Nil
  show ?case by (cases pat) auto
next
  case (Cons c cs)
  show ?case
  proof
    assume "regex_test pat (c # cs)"
    then consider "matches_here pat (c # cs)" | "regex_test pat cs" by auto
    then show "\<exists>pre mid post. c # cs = pre @ mid @ post \<and> map canonicalize mid = map canonicalize pat"
    proof cases
      case 1
      then have "c # cs = [] @ take (length pat) (c # cs) @ drop (length pat) (c # cs)"
        and "map canonicalize (take (length pat) (c # cs)) = map canonicalize pat"
        by (simp_all add: matches_here_iff)
      then show ?thesis by blast
    next
      case 2
      then obtain pre mid post where "cs = pre @ mid @ post"
        and "map canonicalize mid = map canonicalize pat"
        using Cons.IH by blast
      then have "c # cs = (c # pre) @ mid @ post \<and> map canonicalize mid = map canonicalize pat"
        by simp
      then show ?thesis by blast
    qed
  next
    assume "\<exists>pre mid post. c # cs = pre @ mid @ post \<and> map canonicalize mid = map canonicalize pat"
    then obtain pre mid post where split: "c # cs = pre @ mid @ post"
      and same: "map canonicalize mid = map canonicalize pat" by blast
    show "regex_test pat (c # cs)"
    proof (cases pre)
      case Nil
      have len: "length mid = length pat" using same by (metis length_map)
      have "matches_here pat (c # cs)"
        using split Nil same len by (simp add: matches_here_iff)
      then show ?thesis by simp
    next
      case (Cons p pre')
      then have "cs = pre' @ mid @ post" using split by simp
      then have "regex_test pat cs" using Cons.IH same by blast
      then show ?thesis by simp
    qed
  qed
qed

text \<open>
  C10. Both checks are total functions with a Boolean result: the parser's throw is
  caught and gives false. \<open>isValidUrl\<close> is true exactly for the strings that parse and
  whose protocol is \<open>http:\<close> or \<open>https:\<close>; \<open>isSupportedUrl\<close> is true exactly for the
  strings that parse and whose hostname matches one of the four patterns.
\<close>

theorem url_checks_total:
  "(parse s = None \<longrightarrow> \<not> isValidUrl parse s \<and> \<not> isSupportedUrl parse s) \<and>
   (isValidUrl parse s \<longleftrightarrow>
      (\<exists>u. parse s = Some u \<and> (protocol u = ''http:'' \<or> protocol u = ''https:''))) \<and>
   (isSupportedUrl parse s \<longleftrightarrow>
      (\<exists>u. parse s = Some u \<and>
        (regex_test ''xn--12ca1ddhqak6ecxc9b.com'' (hostname u) \<or>
         regex_test baanjeen_com (hostname u) \<or>
         regex_test ''xn--12cg1cxchd0a2a4c5c5b.online'' (hostname u) \<or>
         regex_test nangsanjeen_online (hostname u))))"
  by (simp add: isValidUrl_def isSupportedUrl_def SUPPORTED_SITES_def split: option.splits)

theorem url_checks_total_witness:
  "\<not> isValidUrl toy_parse ''not a url'' \<and> \<not> isSupportedUrl toy_parse ''not a url'' \<and>
   isValidUrl toy_parse ''https://XN--12CA1DDHQAK6ECXC9B.com/v/1'' \<and>
   \<not> isValidUrl toy_parse ''ftp://example.org/x''"
proof -
  have none: "toy_parse ''not a url'' = None"
    by (simp add: toy_parse_def)
  have "\<not> isValidUrl toy_parse ''not a url'' \<and> \<not> isSupportedUrl toy_parse ''not a url''"
    using url_checks_total [of toy_parse "''not a url''"] none by blast
  moreover have "isValidUrl toy_parse ''https://XN--12CA1DDHQAK6ECXC9B.com/v/1''"
    by (simp add: isValidUrl_def toy_parse_def)
  moreover have "\<not> isValidUrl toy_parse ''ftp://example.org/x''"
    by (simp add: isValidUrl_def toy_parse_def)
  ultimately show ?thesis by blast
qed

section \<open>Properties of the download-progress listener\<close>

lemma track_speed_sample:
  assumes "lastProgressUpdate s = Some (t, b0)" and "(now - t) / 1000 > 0.1"
  shows "downloadSpeed (track_speed now b s) =
           smooth_speed ((b - b0) / ((now - t) / 1000)) (downloadSpeed s)"
  using assms by (simp add: track_speed_def Let_def)

text \<open>
  C2. When a progress event yields a speed sample (the status is \<open>downloading\<close>, the byte
  count is positive, an earlier update is remembered and more than 0.1 s have passed since),
  the sample is the byte difference over the time difference, and the new speed is the
  sample itself when the previous speed is 0, and \<open>prev * 0.7 + sample * 0.3\<close> otherwise.
\<close>

theorem speed_moving_average:
  assumes "dp_status data = ''downloading''"
    and "downloaded_bytes data = Some b" and "b > 0"
    and "lastProgressUpdate s = Some (t, b0)"
    and "(now - t) / 1000 > 0.1"
  shows "downloadSpeed (download_progress_listener seen now data s) =
           (if downloadSpeed s = 0 then (b - b0) / ((now - t) / 1000)
            else downloadSpeed s * 0.7 + ((b - b0) / ((now - t) / 1000)) * 0.3)"
proof -
  let ?s1 = "s\<lparr>dl_progress := dp_progress data, downloadedBytes := b,
                 totalBytes := or_zero (total_bytes data)\<rparr>"
  have last: "lastProgressUpdate ?s1 = Some (t, b0)" using assms(4) by simp
  have "downloadSpeed (download_progress_listener seen now data s) =
          downloadSpeed (track_speed now b ?s1)"
    using assms(1-3) by (simp add: download_progress_listener_def Let_def or_zero_def addLog_def)
  also have "\<dots> = smooth_speed ((b - b0) / ((now - t) / 1000)) (downloadSpeed ?s1)"
    by (rule track_speed_sample [OF last assms(5)])
  finally show ?thesis by (simp add: smooth_speed_def)
qed

theorem speed_moving_average_witness:
  "downloadSpeed (download_progress_listener 0 2000 (progress_event 30 300 1000) state_100) = 130"
proof -
  have "downloadSpeed (download_progress_listener 0 2000 (progress_event 30 300 1000) state_100) =
          (if downloadSpeed state_100 = 0 then (300 - 100) / ((2000 - 1000) / 1000)
           else downloadSpeed state_100 * 0.7 + ((300 - 100) / ((2000 - 1000) / 1000)) * 0.3)"
    by (rule speed_moving_average [where t = 1000 and ?b0.0 = 100])
       (simp_all add: progress_event_def state_100_def initial_state_def)
  then show ?thesis by (simp add: state_100_def initial_state_def)
qed

text \<open>
  The ETA block as a function of what the listener sees: with a positive speed in view
  and a known total it stores \<open>(total - currentBytes) / speed\<close>; otherwise it does not
  touch the ETA.
\<close>

lemma eta_of_seen_speed:
  assumes "dp_status data = ''downloading''"
    and "downloaded_bytes data = Some b" and "b > 0"
  shows "dl_eta (download_progress_listener seen now data s) =
           (if seen > 0 \<and> or_zero (total_bytes data) > 0
            then Some ((or_zero (total_bytes data) - b) / seen) else dl_eta s)"
  using assms
  by (simp add: download_progress_listener_def Let_def or_zero_def addLog_def track_speed_def
      split: option.splits prod.splits)

lemma mounted_listener_eta: "dl_eta s = None \<Longrightarrow> dl_eta (mounted_listener now data s) = None"
  by (simp add: mounted_listener_def download_progress_listener_def initial_state_def Let_def
      addLog_def track_speed_def split: option.splits prod.splits)

lemma deliver_eta: "dl_eta s = None \<Longrightarrow> dl_eta (deliver evs s) = None"
proof (induction evs arbitrary: s)
  case Nil
  then show ?case by simp
next
  case (Cons ev evs)
  obtain now data where ev: "ev = (now, data)" by (cases ev)
  show ?case using Cons ev by (simp add: mounted_listener_eta)
qed

lemma eta_never_set: "dl_eta (deliver evs initial_state) = None"
  by (rule deliver_eta) (simp add: initial_state_def)

text \<open>
  C3. Three progress events one second apart, 100 bytes each, of a 1000-byte download.
  After the third the speed is 100 bytes per second, 300 of 1000 bytes are there, and the
  remaining 700 bytes would take 7 seconds; the ETA is still unset, because the listener
  compares the speed of the first render, 0, and never the current one.
\<close>

theorem eta_stale_speed:
  "(let s = deliver [(0, progress_event 10 100 1000),
                     (1000, progress_event 20 200 1000),
                     (2000, progress_event 30 300 1000)] initial_state
    in downloadSpeed s = 100 \<and> totalBytes s = 1000 \<and> downloadedBytes s = 300 \<and>
       (totalBytes s - downloadedBytes s) / downloadSpeed s = 7 \<and> dl_eta s = None)"
  by (simp add: mounted_listener_def download_progress_listener_def initial_state_def Let_def
      addLog_def track_speed_def smooth_speed_def or_zero_def progress_event_def)

section \<open>Properties of the scheduler pass\<close>

text \<open>The loop sends the commands for the entries \<open>i, i + 1, \<dots>\<close> below the bound, in order, up to the first rejection.\<close>

lemma start_downloads_send_all:
  "bound \<le> int (length pend) \<Longrightarrow>
   start_downloads send i bound pend b = send_all send (map item_id (drop i (take (nat bound) pend))) b"
proof (induction send i bound pend b rule: start_downloads.induct)
  case (1 invoke i bound pendingItems backend)
  show ?case
  proof (cases "int i < bound")
    case True
    then have i: "i < length (take (nat bound) pendingItems)" using "1.prems" by simp
    have split: "drop i (take (nat bound) pendingItems) =
                   pendingItems ! i # drop (Suc i) (take (nat bound) pendingItems)"
      using Cons_nth_drop_Suc [OF i] i by simp
    show ?thesis
    proof (cases "invoke ''queue_start_download'' (item_id (pendingItems ! i)) backend")
      case (Inl err)
      have "start_downloads invoke i bound pendingItems backend = (Some err, backend)"
        using True Inl by (subst start_downloads.simps) simp
      then show ?thesis using Inl by (simp add: split)
    next
      case (Inr backend')
      have "start_downloads invoke i bound pendingItems backend =
              start_downloads invoke (Suc i) bound pendingItems backend'"
        using True Inr by (subst start_downloads.simps) simp
      also have "\<dots> = send_all invoke (map item_id (drop (Suc i) (take (nat bound) pendingItems)))
                        backend'"
        using "1.IH" [OF True Inr "1.prems"] .
      finally show ?thesis using Inr by (simp add: split)
    qed
  next
    case False
    then have "drop i (take (nat bound) pendingItems) = []" by simp
    moreover have "start_downloads invoke i bound pendingItems backend = (None, backend)"
      using False by (subst start_downloads.simps) simp
    ultimately show ?thesis by simp
  qed
qed

lemma send_all_record: "send_all (\<lambda>command i sent. Inr (sent @ [i])) ids acc = (None, acc @ ids)"
  by (induction ids arbitrary: acc) auto

lemma take_min_slots:
  "take (nat (min (int (length xs)) k)) xs = take (nat k) xs"
  by (cases "int (length xs) \<le> k") (simp_all add: min_def)

text \<open>A pass sends the start command for the ids of the first pending items of its copy.\<close>

lemma start_downloads_pass:
  "start_downloads send 0
     (min (int (length (pendingItems_of queue)))
          (max_concurrent_downloads settings - int (activeCount_of queue)))
     (pendingItems_of queue) b =
   send_all send
     (map item_id (take (nat (max_concurrent_downloads settings - int (activeCount_of queue)))
                     (pendingItems_of queue))) b"
  by (simp only: start_downloads_send_all [OF min.cobounded1] drop_0 take_min_slots)

lemma started_ids_eq:
  "started_ids settings queue =
     map item_id (take (nat (max_concurrent_downloads settings - int (activeCount_of queue)))
                    (pendingItems_of queue))"
  unfolding started_ids_def processQueue_def Let_def
  by (simp only: if_False start_downloads_pass send_all_record) simp

lemma processQueue_send_all:
  "processQueue send False settings queue b =
     (case send_all send (started_ids settings queue) b of
        (None, b') \<Rightarrow> (Queue_reloaded, b')
      | (Some err, b') \<Rightarrow> (Logged_error (''Queue processing error: '' @ err), b'))"
  unfolding processQueue_def Let_def
  by (simp only: if_False start_downloads_pass started_ids_eq)

















lemma longest_id:
  "item \<in> set q \<Longrightarrow> length (item_id item) \<le> foldr (\<lambda>item n. max (length (item_id item)) n) q 0"
  by (induction q) auto

lemma new_id_fresh: "new_id q \<notin> set (map item_id q)"
proof
  assume "new_id q \<in> set (map item_id q)"
  then obtain item where item: "item \<in> set q" and eq: "item_id item = new_id q" by auto
  have "length (item_id item) \<le> foldr (\<lambda>item n. max (length (item_id item)) n) q 0"
    using item by (rule longest_id)
  moreover have "length (new_id q) = Suc (foldr (\<lambda>item n. max (length (item_id item)) n) q 0)"
    by (simp add: new_id_def)
  ultimately show False using eq by simp
qed

lemma distinct_queue_add:
  "distinct (map item_id q) \<Longrightarrow> distinct (map item_id (snd (queue_add now rq q)))"
  using new_id_fresh [of q] by (simp add: queue_add_def)



















section \<open>Properties of the action buttons\<close>







section \<open>Properties of enqueueing\<close>

lemma last_queue_add:
  "snd (queue_add now rq q) = q @ [last (snd (queue_add now rq q))]"
  by (simp add: queue_add_def)

text \<open>
  C6. With video info fetched, \<open>addToQueue\<close> sends one \<open>queue_add\<close> whose argument has the
  six fields url, title, thumbnail, quality, outputDir and outputFilename, filled from the
  form. The command returns an id that no item of the queue has, and appends one item with
  that id, the six fields of the request and status \<open>Pending\<close>; distinct ids stay distinct.
\<close>

theorem enqueue_creates_pending:
  assumes "videoInfo form = Some info"
  shows "(let rq = enqueue_args trim form info;
              new = fst (queue_add now rq q);
              q' = snd (queue_add now rq q)
          in fst (addToQueue trim settings (Inr new) form s) =
               Queue_add rq # Load_queue #
                 (if auto_start_queue settings then [Process_queue] else []) \<and>
             rq = \<lparr>rq_url = trim (form_url form),
                   rq_title = (if vi_title info = [] then ''Unknown'' else vi_title info),
                   rq_thumbnail = vi_thumbnail info,
                   rq_quality = form_quality form,
                   rq_outputDir = outputDir form,
                   rq_outputFilename =
                     (if filename form = [] then sanitize (vi_title info) @ ''.mp4''
                      else filename form)\<rparr> \<and>
             new \<notin> set (map item_id q) \<and>
             q' = q @ [last q'] \<and>
             item_id (last q') = new \<and> status (last q') = Pending \<and>
             url (last q') = rq_url rq \<and> title (last q') = rq_title rq \<and>
             thumbnail (last q') = rq_thumbnail rq \<and> quality (last q') = rq_quality rq \<and>
             output_dir (last q') = rq_outputDir rq \<and>
             output_filename (last q') = rq_outputFilename rq \<and>
             (distinct (map item_id q) \<longrightarrow> distinct (map item_id q')))"
proof -
  let ?rq = "enqueue_args trim form info"
  have calls: "fst (addToQueue trim settings (Inr (fst (queue_add now ?rq q))) form s) =
      Queue_add ?rq # Load_queue # (if auto_start_queue settings then [Process_queue] else [])"
    using assms by (simp add: addToQueue_def)
  have args: "?rq = \<lparr>rq_url = trim (form_url form),
                   rq_title = (if vi_title info = [] then ''Unknown'' else vi_title info),
                   rq_thumbnail = vi_thumbnail info,
                   rq_quality = form_quality form,
                   rq_outputDir = outputDir form,
                   rq_outputFilename =
                     (if filename form = [] then sanitize (vi_title info) @ ''.mp4''
                      else filename form)\<rparr>"
    by (simp add: enqueue_args_def or_str_def)
  have fresh: "fst (queue_add now ?rq q) \<notin> set (map item_id q)"
    using new_id_fresh [of q] by (simp add: queue_add_def)
  have item: "item_id (last (snd (queue_add now ?rq q))) = fst (queue_add now ?rq q) \<and>
      status (last (snd (queue_add now ?rq q))) = Pending \<and>
      url (last (snd (queue_add now ?rq q))) = rq_url ?rq \<and>
      title (last (snd (queue_add now ?rq q))) = rq_title ?rq \<and>
      thumbnail (last (snd (queue_add now ?rq q))) = rq_thumbnail ?rq \<and>
      quality (last (snd (queue_add now ?rq q))) = rq_quality ?rq \<and>
      output_dir (last (snd (queue_add now ?rq q))) = rq_outputDir ?rq \<and>
      output_filename (last (snd (queue_add now ?rq q))) = rq_outputFilename ?rq"
    by (simp add: queue_add_def)
  have dist: "distinct (map item_id q) \<longrightarrow> distinct (map item_id (snd (queue_add now ?rq q)))"
    by (simp add: distinct_queue_add)
  show ?thesis
    unfolding Let_def
    using calls args fresh item dist last_queue_add [of now ?rq q] by blast
qed

theorem enqueue_creates_pending_witness:
  "(let rq = enqueue_args ascii_trim form_1 info_1;
        new = fst (queue_add ''t9'' rq [item_a, item_b]);
        q' = snd (queue_add ''t9'' rq [item_a, item_b])
    in new = ''qq'' \<and> rq_url rq = ''https://xn--12ca1ddhqak6ecxc9b.com/v/1'' \<and>
       rq_outputFilename rq = ''Ep 1_ A_B.mp4'' \<and>
       map item_id q' = [''a'', ''b'', ''qq''] \<and> status (last q') = Pending \<and>
       fst (addToQueue ascii_trim default_settings (Inr new) form_1 initial_state) =
         [Queue_add rq, Load_queue, Process_queue])"
proof -
  have v: "videoInfo form_1 = Some info_1" by (simp add: form_1_def)
  have d: "distinct (map item_id [item_a, item_b])" by (simp add: item_a_def item_b_def)
  show ?thesis
    using enqueue_creates_pending [OF v, of ascii_trim "''t9''" "[item_a, item_b]" default_settings initial_state] d
    by (simp add: Let_def queue_add_def new_id_def item_a_def item_b_def enqueue_args_def
        form_1_def info_1_def ascii_trim_def is_space_def or_str_def sanitize_def default_settings_def)
qed

section \<open>Properties of the history record\<close>

lemma history_on_success:
  "trim (form_url form) \<noteq> [] \<Longrightarrow>
   fst (handleDownload trim started events id_text iso_text (Inr result) stored form s) =
     [Download_video (download_args trim form),
      Add_to_history (historyItem_of trim id_text iso_text form)]"
  by (simp add: handleDownload_def Let_def)

lemma no_history_on_failure:
  "history_records (fst (handleDownload trim started events id_text iso_text (Inl err) stored form s)) = []"
  by (simp add: handleDownload_def Let_def)

text \<open>
  For a file name that is not empty and that trimming leaves unchanged, the path recorded
  is the path \<open>outputDir/outputFilename\<close> of the download request.
\<close>

lemma history_path_of_trimmed_name:
  "filename form \<noteq> [] \<Longrightarrow> trim (filename form) = filename form \<Longrightarrow>
   Some (h_file_path (historyItem_of trim id_text iso_text form)) =
     requested_path (download_args trim form)"
  by (simp add: historyItem_of_def or_str_def requested_path_def download_args_def)

text \<open>
  C7. A download with the file name \<open>" ep1.mp4"\<close> (a leading blank) into \<open>/dl\<close> succeeds.
  The request carries the trimmed name, so the file is \<open>/dl/ep1.mp4\<close>; the one history
  record sent carries the name as typed, and its path is \<open>/dl/ ep1.mp4\<close>.
\<close>

theorem history_path_untrimmed:
  "fst (handleDownload ascii_trim 0 [] ''1700000000000'' ''2023-11-14T22:13:20.000Z''
          (Inr ''saved'') (Inr ()) form_padded initial_state) =
     [Download_video (download_args ascii_trim form_padded),
      Add_to_history
        (historyItem_of ascii_trim ''1700000000000'' ''2023-11-14T22:13:20.000Z'' form_padded)] \<and>
   dv_outputDir (download_args ascii_trim form_padded) = ''/dl'' \<and>
   dv_outputFilename (download_args ascii_trim form_padded) = Some ''ep1.mp4'' \<and>
   requested_path (download_args ascii_trim form_padded) = Some ''/dl/ep1.mp4'' \<and>
   h_filename
     (historyItem_of ascii_trim ''1700000000000'' ''2023-11-14T22:13:20.000Z'' form_padded) =
     '' ep1.mp4'' \<and>
   h_file_path
     (historyItem_of ascii_trim ''1700000000000'' ''2023-11-14T22:13:20.000Z'' form_padded) =
     ''/dl/ ep1.mp4''"
  by (simp add: handleDownload_def Let_def historyItem_of_def download_args_def requested_path_def
      form_padded_def form_1_def or_str_def ascii_trim_def is_space_def)

section \<open>When a scheduler pass runs\<close>

lemma first_started:
  assumes "auto_process settings queue"
  shows "\<exists>rest. started_ids settings queue = item_id (hd (pendingItems_of queue)) # rest"
proof -
  have p: "pendingItems_of queue \<noteq> []"
    and s: "0 < max_concurrent_downloads settings - int (activeCount_of queue)"
    using assms by (auto simp: auto_process_def Let_def)
  obtain x xs where px: "pendingItems_of queue = x # xs" using p by (cases "pendingItems_of queue") auto
  obtain k where k: "nat (max_concurrent_downloads settings - int (activeCount_of queue)) = Suc k"
    using s by (cases "nat (max_concurrent_downloads settings - int (activeCount_of queue))") auto
  show ?thesis by (simp add: started_ids_eq px k)
qed

text \<open>
  C8. \<open>addToQueue\<close> calls \<open>processQueue\<close> exactly when video info is there, \<open>queue_add\<close>
  succeeded and \<open>auto_start_queue\<close> is on. The effect that follows every change of the
  queue calls \<open>processQueue\<close> exactly when some item is \<open>Pending\<close>, fewer items than
  \<open>max_concurrent_downloads\<close> are \<open>Downloading\<close> and \<open>auto_start_queue\<close> is on. A call of
  \<open>processQueue\<close> returns at once while a pass is in progress; otherwise it sends the start
  commands of the pass up to the first rejection, and when the effect's condition holds
  the first of them is for the first \<open>Pending\<close> item.
\<close>

theorem pass_after_enqueue:
  "(Process_queue \<in> set (fst (addToQueue trim settings reply form s)) \<longleftrightarrow>
      videoInfo form \<noteq> None \<and> (\<exists>new. reply = Inr new) \<and> auto_start_queue settings) \<and>
   (auto_process settings queue \<longleftrightarrow>
      pendingItems_of queue \<noteq> [] \<and>
      int (activeCount_of queue) < max_concurrent_downloads settings \<and>
      auto_start_queue settings) \<and>
   processQueue invoke True settings queue backend = (Returned_at_once, backend) \<and>
   processQueue invoke False settings queue backend =
     (case send_all invoke (started_ids settings queue) backend of
        (None, backend') \<Rightarrow> (Queue_reloaded, backend')
      | (Some err, backend') \<Rightarrow> (Logged_error (''Queue processing error: '' @ err), backend')) \<and>
   (auto_process settings queue \<longrightarrow>
      (\<exists>rest. started_ids settings queue = item_id (hd (pendingItems_of queue)) # rest))"
proof -
  have c1: "Process_queue \<in> set (fst (addToQueue trim settings reply form s)) \<longleftrightarrow>
      videoInfo form \<noteq> None \<and> (\<exists>new. reply = Inr new) \<and> auto_start_queue settings"
    by (cases "videoInfo form"; cases reply) (simp_all add: addToQueue_def)
  have c2: "auto_process settings queue \<longleftrightarrow>
      pendingItems_of queue \<noteq> [] \<and>
      int (activeCount_of queue) < max_concurrent_downloads settings \<and>
      auto_start_queue settings"
    by (simp add: auto_process_def Let_def)
  have c3: "processQueue invoke True settings queue backend = (Returned_at_once, backend)"
    by (simp add: processQueue_def)
  have c4: "processQueue invoke False settings queue backend =
     (case send_all invoke (started_ids settings queue) backend of
        (None, backend') \<Rightarrow> (Queue_reloaded, backend')
      | (Some err, backend') \<Rightarrow> (Logged_error (''Queue processing error: '' @ err), backend'))"
    by (rule processQueue_send_all)
  have c5: "auto_process settings queue \<longrightarrow>
      (\<exists>rest. started_ids settings queue = item_id (hd (pendingItems_of queue)) # rest)"
    using first_started by (rule impI)
  show ?thesis by (rule conjI [OF c1 conjI [OF c2 conjI [OF c3 conjI [OF c4 c5]]]])
qed

theorem pass_after_enqueue_witness:
  "Process_queue \<in> set (fst (addToQueue ascii_trim default_settings (Inr ''qq'') form_1 initial_state)) \<and>
   auto_process default_settings [item_a, item_b] \<and>
   started_ids default_settings [item_a, item_b] = [''b''] \<and>
   processQueue (queue_backend never) True default_settings [item_a, item_b] [item_a, item_b] =
     (Returned_at_once, [item_a, item_b])"
proof -
  note main = pass_after_enqueue [of ascii_trim default_settings "Inr ''qq''" form_1 initial_state
        "[item_a, item_b]" "queue_backend never" "[item_a, item_b]"]
  have a: "auto_process default_settings [item_a, item_b]"
    by (simp add: auto_process_def Let_def pendingItems_of_def activeCount_of_def
        default_settings_def item_a_def item_b_def)
  have "\<exists>rest. started_ids default_settings [item_a, item_b] =
      item_id (hd (pendingItems_of [item_a, item_b])) # rest"
    using main [THEN conjunct2, THEN conjunct2, THEN conjunct2, THEN conjunct2] a by (rule mp)
  moreover have "started_ids default_settings [item_a, item_b] = [''b'']"
    by (simp add: started_ids_eq pendingItems_of_def activeCount_of_def
        default_settings_def item_a_def item_b_def)
  moreover have "Process_queue \<in> set (fst (addToQueue ascii_trim default_settings (Inr ''qq'') form_1 initial_state))"
    by (simp add: addToQueue_def form_1_def default_settings_def)
  moreover have "processQueue (queue_backend never) True default_settings [item_a, item_b]
      [item_a, item_b] = (Returned_at_once, [item_a, item_b])"
    using main [THEN conjunct2, THEN conjunct2, THEN conjunct1] .
  ultimately show ?thesis using a by simp
qed

text \<open>
  With \<open>auto_start_queue\<close> off, a successful enqueue is followed by no pass, and a queue
  with a \<open>Pending\<close> item and nothing \<open>Downloading\<close> does not make the effect call one.
\<close>

theorem manual_start_no_pass:
  "fst (addToQueue ascii_trim settings_manual (Inr ''qq'') form_1 initial_state) =
     [Queue_add (enqueue_args ascii_trim form_1 info_1), Load_queue] \<and>
   Process_queue \<notin> set (fst (addToQueue ascii_trim settings_manual (Inr ''qq'') form_1 initial_state)) \<and>
   status item_b = Pending \<and> activeCount_of [item_b] = 0 \<and>
   \<not> auto_process settings_manual [item_b]"
  by (simp add: addToQueue_def form_1_def settings_manual_def default_settings_def
      auto_process_def Let_def activeCount_of_def item_b_def)

section \<open>Properties of retry\<close>

































end
